theory Spec2Isabelle
  imports Complex_Main "HOL-Library.AList" "HOL-Library.Multiset"
begin

section \<open>Data model\<close>

text \<open>
  A shallow embedding of \<^verbatim>\<open>components/reranker.py\<close>. Python floats are read as
  the reals (no rounding, no NaN); every raise of the source is a branch \<open>Inl\<close> of the
  result. Distinct hypotheses are distinct objects: no list holds the same object twice.
\<close>

datatype error =
  IndexError | NameError | ValueError | TypeError | AttributeError | KeyError
  | ZeroDivisionError | TokenizeError

type_synonym token = string

text \<open>An \<^verbatim>\<open>OrderedDict\<close> keyed by names: an association list in insertion order.
  Assigning to a present key keeps its position (\<open>AList.update\<close>), a new key goes last.\<close>

type_synonym 'v ordered_dict = "(string \<times> 'v) list"

definition od_values :: "'v ordered_dict \<Rightarrow> 'v list" where
  "od_values d = map snd d"

definition od_keys :: "'v ordered_dict \<Rightarrow> string list" where
  "od_keys d = map fst d"

record example =
  src_sent :: "string list"

text \<open>A hypothesis of the parser. The two attributes the reranker adds are absent
  (\<open>None\<close>) until it sets them.\<close>

record hyp =
  code :: string
  score :: real
  is_correct :: bool
  code_token_count :: "nat option"
  rerank_feature_values :: "real ordered_dict option"

text \<open>The pseudo example built for each hypothesis (\<^verbatim>\<open>Example(idx=None, src_sent=...,
  tgt_code=hyp.code, ...)\<close>), with the attributes \<^verbatim>\<open>setattr\<close> adds to it.\<close>

record hyp_example =
  he_src_sent :: "string list"
  tgt_code :: string
  attrs :: "real ordered_dict"

text \<open>A reranking feature: its name, whether it is batched, \<^verbatim>\<open>get_feat_value(example,
  hyp, hyp_id=..., all_hyps=...)\<close> and, for a batched feature, \<^verbatim>\<open>score(batch)\<close>.\<close>

record feature =
  feature_name :: string
  is_batched :: bool
  get_feat_value :: "example \<Rightarrow> hyp \<Rightarrow> nat \<Rightarrow> hyp list \<Rightarrow> error + real"
  feat_score :: "hyp_example list \<Rightarrow> real list"

definition get_item :: "'a list \<Rightarrow> nat \<Rightarrow> error + 'a" where
  "get_item xs i = (if i < length xs then Inr (xs ! i) else Inl IndexError)"

subsection \<open>The four features of the source\<close>

definition NormalizedParserScore :: feature where
  "NormalizedParserScore =
     \<lparr>feature_name = ''normalized_parser_score'', is_batched = False,
      get_feat_value = (\<lambda>ex h hyp_id all_hyps.
        case code_token_count h of
          None \<Rightarrow> Inl AttributeError
        | Some n \<Rightarrow> if n = 0 then Inl ZeroDivisionError else Inr (score h / real n)),
      feat_score = (\<lambda>batch. [])\<rparr>"

definition HypCodeTokensCount :: feature where
  "HypCodeTokensCount =
     \<lparr>feature_name = ''code_token_count'', is_batched = False,
      get_feat_value = (\<lambda>ex h hyp_id all_hyps.
        case code_token_count h of
          None \<Rightarrow> Inl AttributeError
        | Some n \<Rightarrow> Inr (real n)),
      feat_score = (\<lambda>batch. [])\<rparr>"

definition IsSecondHypAndScoreMargin :: feature where
  "IsSecondHypAndScoreMargin =
     \<lparr>feature_name = ''is_2nd_hyp_and_margin_with_top_hyp'', is_batched = False,
      get_feat_value = (\<lambda>ex h hyp_id all_hyps.
        if hyp_id = 1 then
          (case get_item all_hyps 0 of
             Inl e \<Rightarrow> Inl e
           | Inr top_hyp \<Rightarrow> Inr (score top_hyp - score h))
        else Inr 0),
      feat_score = (\<lambda>batch. [])\<rparr>"

definition lookup_value :: "hyp \<Rightarrow> string \<Rightarrow> error + real" where
  "lookup_value h k =
     (case rerank_feature_values h of
        None \<Rightarrow> Inl AttributeError
      | Some d \<Rightarrow> (case map_of d k of None \<Rightarrow> Inl KeyError | Some v \<Rightarrow> Inr v))"

definition IsSecondHypAndParaphraseScoreMargin :: feature where
  "IsSecondHypAndParaphraseScoreMargin =
     \<lparr>feature_name = ''is_2nd_hyp_and_paraphrase_score_margin_with_top_hyp'',
      is_batched = False,
      get_feat_value = (\<lambda>ex h hyp_id all_hyps.
        if hyp_id = 1 then
          (case lookup_value h ''paraphrase_score'' of
             Inl e \<Rightarrow> Inl e
           | Inr mine \<Rightarrow>
               (case get_item all_hyps 0 of
                  Inl e \<Rightarrow> Inl e
                | Inr top_hyp \<Rightarrow>
                    (case lookup_value top_hyp ''paraphrase_score'' of
                       Inl e \<Rightarrow> Inl e
                     | Inr theirs \<Rightarrow> Inr (mine - theirs))))
        else Inr 0),
      feat_score = (\<lambda>batch. [])\<rparr>"

section \<open>Reranker\<close>

text \<open>\<open>tokenize_code\<close> stands for \<^verbatim>\<open>transition_system.tokenize_code\<close>, which is not
  part of this file of the repository: \<open>None\<close> is a call that raises.\<close>

record reranker =
  features :: "feature list"
  tokenize_code :: "string \<Rightarrow> token list option"
  feat_map :: "feature ordered_dict"
  batched_features :: "feature ordered_dict"
  parameter :: "real list"

definition add_feature :: "feature \<Rightarrow> reranker \<Rightarrow> reranker" where
  "add_feature f rk =
     (let rk1 = rk\<lparr>features := features rk @ [f],
                   feat_map := AList.update (feature_name f) f (feat_map rk)\<rparr>
      in if is_batched f
         then rk1\<lparr>batched_features := AList.update (feature_name f) f (batched_features rk1)\<rparr>
         else rk1)"

definition feature_num :: "'a reranker_scheme \<Rightarrow> nat" where
  "feature_num rk = length (features rk)"

definition Reranker_init ::
  "feature list \<Rightarrow> real list option \<Rightarrow> (string \<Rightarrow> token list option) \<Rightarrow> reranker" where
  "Reranker_init fs param ts =
     (let rk = fold add_feature fs
                 \<lparr>features = [], tokenize_code = ts, feat_map = [],
                  batched_features = [], parameter = []\<rparr>
      in case param of
           Some p \<Rightarrow> rk\<lparr>parameter := p\<rparr>
         | None \<Rightarrow> rk\<lparr>parameter := replicate (feature_num rk) 0\<rparr>)"

subsection \<open>Filtering\<close>

definition is_valid_hyp :: "'a reranker_scheme \<Rightarrow> hyp \<Rightarrow> bool" where
  "is_valid_hyp rk h =
     (case tokenize_code rk (code h) of
        None \<Rightarrow> False
      | Some toks \<Rightarrow> if code h \<noteq> [] then True else False)"

fun valid_hyps_loop :: "(hyp \<Rightarrow> bool) \<Rightarrow> hyp list \<Rightarrow> hyp list \<Rightarrow> hyp list" where
  "valid_hyps_loop is_valid [] valid_hyps = valid_hyps"
| "valid_hyps_loop is_valid (h # hs) valid_hyps =
     (if is_valid h then valid_hyps_loop is_valid hs (valid_hyps @ [h])
      else valid_hyps_loop is_valid hs valid_hyps)"

text \<open>\<^verbatim>\<open>_filter_hyps\<close>: \<^verbatim>\<open>for i in range(len(decode_results))\<close>, storing
  \<^verbatim>\<open>decode_results[i] = valid_hyps\<close>.\<close>

definition filter_hyps :: "hyp list list \<Rightarrow> (hyp \<Rightarrow> bool) \<Rightarrow> hyp list list" where
  "filter_hyps decode_results is_valid =
     fold (\<lambda>i dr. dr[i := valid_hyps_loop is_valid (dr ! i) []])
          [0..<length decode_results] decode_results"

subsection \<open>Feature initialisation\<close>

text \<open>First loop of \<^verbatim>\<open>initialize_rerank_features\<close>: one pseudo example per hypothesis,
  the token count, and an empty \<^verbatim>\<open>rerank_feature_values\<close>.\<close>

fun init_hyps :: "'a reranker_scheme \<Rightarrow> example \<Rightarrow> hyp list \<Rightarrow> hyp_example list
    \<Rightarrow> error + (hyp list \<times> hyp_example list)" where
  "init_hyps rk ex [] hyp_examples = Inr ([], hyp_examples)"
| "init_hyps rk ex (h # hs) hyp_examples =
     (let hyp_example = \<lparr>he_src_sent = src_sent ex, tgt_code = code h, attrs = []\<rparr>
      in case tokenize_code rk (code h) of
           None \<Rightarrow> Inl TokenizeError
         | Some toks \<Rightarrow>
             (case init_hyps rk ex hs (hyp_examples @ [hyp_example]) of
                Inl e \<Rightarrow> Inl e
              | Inr (hs', hes) \<Rightarrow>
                  Inr (h\<lparr>code_token_count := Some (length toks),
                         rerank_feature_values := Some []\<rparr> # hs', hes)))"

fun init_all :: "'a reranker_scheme \<Rightarrow> example list \<Rightarrow> hyp list list \<Rightarrow> hyp_example list
    \<Rightarrow> error + (hyp list list \<times> hyp_example list)" where
  "init_all rk (ex # exs) (hyps # dr) hyp_examples =
     (case init_hyps rk ex hyps hyp_examples of
        Inl e \<Rightarrow> Inl e
      | Inr (hyps', hes) \<Rightarrow>
          (case init_all rk exs dr hes of
             Inl e \<Rightarrow> Inl e
           | Inr (dr', hes') \<Rightarrow> Inr (hyps' # dr', hes')))"
| "init_all rk exs dr hyp_examples = Inr (dr, hyp_examples)"

text \<open>Modelled from the spec: \<^verbatim>\<open>utils.batch_iter\<close> is not under the source tree; the
  spec says it groups the pseudo examples, in order, into batches of fixed size.\<close>

function batch_iter :: "'a list \<Rightarrow> nat \<Rightarrow> 'a list list" where
  "batch_iter xs batch_size =
     (if xs = [] \<or> batch_size = 0 then []
      else take batch_size xs # batch_iter (drop batch_size xs) batch_size)"
  by pat_completeness auto
termination
  by (relation "measure (\<lambda>(xs, n). length xs)") auto

declare batch_iter.simps [simp del]

text \<open>Second loop: every batched feature scores every batch; the scores are stored on
  the pseudo examples by position (\<^verbatim>\<open>batch_example_scores[i]\<close> raises on a short
  list).\<close>

fun score_batch :: "feature ordered_dict \<Rightarrow> hyp_example list \<Rightarrow> error + hyp_example list" where
  "score_batch [] batch = Inr batch"
| "score_batch ((feat_name, feat) # bfs) batch =
     (let batch_example_scores = feat_score feat batch
      in if length batch_example_scores < length batch then Inl IndexError
         else score_batch bfs
                (map (\<lambda>(e, s). e\<lparr>attrs := AList.update feat_name s (attrs e)\<rparr>)
                     (zip batch batch_example_scores)))"

fun score_batches :: "feature ordered_dict \<Rightarrow> hyp_example list list
    \<Rightarrow> error + hyp_example list" where
  "score_batches bfs [] = Inr []"
| "score_batches bfs (batch # batches) =
     (case score_batch bfs batch of
        Inl e \<Rightarrow> Inl e
      | Inr batch' \<Rightarrow>
          (case score_batches bfs batches of
             Inl e \<Rightarrow> Inl e
           | Inr rest \<Rightarrow> Inr (batch' @ rest)))"

text \<open>Third loop: the batched values are copied from the pseudo example at \<open>e_ptr\<close>
  into the hypothesis's \<^verbatim>\<open>rerank_feature_values\<close>.\<close>

fun copy_batched :: "feature ordered_dict \<Rightarrow> hyp_example list \<Rightarrow> nat \<Rightarrow> hyp \<Rightarrow> error + hyp" where
  "copy_batched [] hyp_examples e_ptr h = Inr h"
| "copy_batched ((feat_name, feat) # bfs) hyp_examples e_ptr h =
     (case get_item hyp_examples e_ptr of
        Inl e \<Rightarrow> Inl e
      | Inr he \<Rightarrow>
          (case map_of (attrs he) feat_name of
             None \<Rightarrow> Inl AttributeError
           | Some v \<Rightarrow>
               (case rerank_feature_values h of
                  None \<Rightarrow> Inl AttributeError
                | Some d \<Rightarrow>
                    copy_batched bfs hyp_examples e_ptr
                      (h\<lparr>rerank_feature_values := Some (AList.update feat_name v d)\<rparr>))))"

fun copy_hyps :: "feature ordered_dict \<Rightarrow> hyp_example list \<Rightarrow> nat \<Rightarrow> hyp list
    \<Rightarrow> error + (hyp list \<times> nat)" where
  "copy_hyps bfs hyp_examples e_ptr [] = Inr ([], e_ptr)"
| "copy_hyps bfs hyp_examples e_ptr (h # hs) =
     (case copy_batched bfs hyp_examples e_ptr h of
        Inl e \<Rightarrow> Inl e
      | Inr h' \<Rightarrow>
          (case copy_hyps bfs hyp_examples (e_ptr + 1) hs of
             Inl e \<Rightarrow> Inl e
           | Inr (hs', p) \<Rightarrow> Inr (h' # hs', p)))"

fun copy_all :: "feature ordered_dict \<Rightarrow> hyp_example list \<Rightarrow> nat \<Rightarrow> example list
    \<Rightarrow> hyp list list \<Rightarrow> error + hyp list list" where
  "copy_all bfs hyp_examples e_ptr (ex # exs) (hyps # dr) =
     (case copy_hyps bfs hyp_examples e_ptr hyps of
        Inl e \<Rightarrow> Inl e
      | Inr (hyps', p) \<Rightarrow>
          (case copy_all bfs hyp_examples p exs dr of
             Inl e \<Rightarrow> Inl e
           | Inr dr' \<Rightarrow> Inr (hyps' # dr')))"
| "copy_all bfs hyp_examples e_ptr exs dr = Inr dr"

text \<open>Fourth loop: the features that are not batched, in the order of \<^verbatim>\<open>feat_map\<close>.
  The feature sees the hypothesis and the list \<^verbatim>\<open>all_hyps\<close> as they are at that
  moment: \<open>done\<close> holds the hypotheses before \<open>hyp_id\<close>, already complete.\<close>

fun set_values :: "feature ordered_dict \<Rightarrow> example \<Rightarrow> hyp list \<Rightarrow> hyp \<Rightarrow> hyp list
    \<Rightarrow> error + hyp" where
  "set_values [] ex done h rest = Inr h"
| "set_values ((feat_name, feat) # fm) ex done h rest =
     (if \<not> is_batched feat then
        (case get_feat_value feat ex h (length done) (done @ h # rest) of
           Inl e \<Rightarrow> Inl e
         | Inr feat_val \<Rightarrow>
             (case rerank_feature_values h of
                None \<Rightarrow> Inl AttributeError
              | Some d \<Rightarrow>
                  set_values fm ex done
                    (h\<lparr>rerank_feature_values := Some (AList.update feat_name feat_val d)\<rparr>)
                    rest))
      else set_values fm ex done h rest)"

fun set_hyps :: "feature ordered_dict \<Rightarrow> example \<Rightarrow> hyp list \<Rightarrow> hyp list \<Rightarrow> error + hyp list" where
  "set_hyps fm ex done [] = Inr done"
| "set_hyps fm ex done (h # rest) =
     (case set_values fm ex done h rest of
        Inl e \<Rightarrow> Inl e
      | Inr h' \<Rightarrow> set_hyps fm ex (done @ [h']) rest)"

fun set_all :: "feature ordered_dict \<Rightarrow> example list \<Rightarrow> hyp list list \<Rightarrow> error + hyp list list" where
  "set_all fm (ex # exs) (hyps # dr) =
     (case set_hyps fm ex [] hyps of
        Inl e \<Rightarrow> Inl e
      | Inr hyps' \<Rightarrow>
          (case set_all fm exs dr of
             Inl e \<Rightarrow> Inl e
           | Inr dr' \<Rightarrow> Inr (hyps' # dr')))"
| "set_all fm exs dr = Inr dr"

definition initialize_rerank_features ::
  "'a reranker_scheme \<Rightarrow> example list \<Rightarrow> hyp list list \<Rightarrow> error + hyp list list" where
  "initialize_rerank_features rk examples decode_results =
     (case init_all rk examples decode_results [] of
        Inl e \<Rightarrow> Inl e
      | Inr (dr1, hyp_examples) \<Rightarrow>
          (case score_batches (batched_features rk) (batch_iter hyp_examples 128) of
             Inl e \<Rightarrow> Inl e
           | Inr hyp_examples' \<Rightarrow>
               (case copy_all (batched_features rk) hyp_examples' 0 examples dr1 of
                  Inl e \<Rightarrow> Inl e
                | Inr dr2 \<Rightarrow> set_all (feat_map rk) examples dr2)))"

definition filter_hyps_and_initialize_features ::
  "'a reranker_scheme \<Rightarrow> example list \<Rightarrow> hyp list list \<Rightarrow> error + hyp list list" where
  "filter_hyps_and_initialize_features rk examples decode_results =
     (case get_item decode_results 0 of
        Inl e \<Rightarrow> Inl e
      | Inr hyps0 \<Rightarrow>
          (case get_item hyps0 0 of
             Inl e \<Rightarrow> Inl e
           | Inr h0 \<Rightarrow>
               if rerank_feature_values h0 = None
               then initialize_rerank_features rk examples
                      (filter_hyps decode_results (is_valid_hyp rk))
               else Inr decode_results))"

section \<open>Scoring and reranking\<close>

text \<open>The list comprehension \<^verbatim>\<open>[f(x) for x in xs]\<close> with a function that may raise.\<close>

fun map_err :: "('a \<Rightarrow> error + 'b) \<Rightarrow> 'a list \<Rightarrow> error + 'b list" where
  "map_err f [] = Inr []"
| "map_err f (x # xs) =
     (case f x of
        Inl e \<Rightarrow> Inl e
      | Inr y \<Rightarrow> (case map_err f xs of Inl e \<Rightarrow> Inl e | Inr ys \<Rightarrow> Inr (y # ys)))"

text \<open>\<^verbatim>\<open>np.argmax\<close>: the index of the first occurrence of the maximum; it raises on an
  empty sequence.\<close>

fun argmax_loop :: "real list \<Rightarrow> nat \<Rightarrow> nat \<Rightarrow> real \<Rightarrow> nat" where
  "argmax_loop [] i best_i best = best_i"
| "argmax_loop (x # xs) i best_i best =
     (if x > best then argmax_loop xs (Suc i) i x else argmax_loop xs (Suc i) best_i best)"

definition np_argmax :: "real list \<Rightarrow> error + nat" where
  "np_argmax xs = (case xs of [] \<Rightarrow> Inl ValueError | x # rest \<Rightarrow> Inr (argmax_loop rest 1 0 x))"

text \<open>\<^verbatim>\<open>np.dot\<close> of two vectors: it raises when the lengths differ.\<close>

definition np_dot :: "real list \<Rightarrow> real list \<Rightarrow> error + real" where
  "np_dot a b =
     (if length a \<noteq> length b then Inl ValueError
      else Inr (sum_list (map (\<lambda>(x, y). x * y) (zip a b))))"


definition stable_argsort :: "real list \<Rightarrow> nat list" where
  "stable_argsort xs = sort_key (\<lambda>i. xs ! i) [0..<length xs]"

subsection \<open>GridSearchReranker.get\_rerank\_score\<close>

definition grid_get_rerank_score :: "hyp \<Rightarrow> real list \<Rightarrow> error + real" where
  "grid_get_rerank_score h param =
     (case rerank_feature_values h of
        None \<Rightarrow> Inl AttributeError
      | Some d \<Rightarrow>
          (let feat_vals = od_values d
           in case np_dot param feat_vals of
                Inl e \<Rightarrow> Inl e
              | Inr dp \<Rightarrow> Inr (score h + dp)))"

subsection \<open>Reranker.compute\_rerank\_performance\<close>

text \<open>The body of the loop over the examples. \<open>get_rerank_score\<close> is the method of the
  subclass. The \<^verbatim>\<open>verbose\<close> branch only prints and is left out.\<close>

definition rerank_example ::
  "(hyp \<Rightarrow> real list \<Rightarrow> error + real) \<Rightarrow> (real list \<Rightarrow> nat list) \<Rightarrow> real list \<Rightarrow> bool
    \<Rightarrow> hyp list \<Rightarrow> error + hyp list" where
  "rerank_example get_rerank_score np_argsort param fast_mode hyps =
     (if hyps \<noteq> [] then
        (case map_err (\<lambda>h. get_rerank_score h param) hyps of
           Inl e \<Rightarrow> Inl e
         | Inr new_hyp_scores \<Rightarrow>
             (case np_argmax new_hyp_scores of
                Inl e \<Rightarrow> Inl e
              | Inr best_hyp_idx \<Rightarrow>
                  (case get_item hyps best_hyp_idx of
                     Inl e \<Rightarrow> Inl e
                   | Inr best_hyp \<Rightarrow>
                       if fast_mode then Inr [best_hyp]
                       else map_err (get_item hyps) (rev (np_argsort new_hyp_scores)))))
      else Inr [])"

definition sorted_decode_results ::
  "(hyp \<Rightarrow> real list \<Rightarrow> error + real) \<Rightarrow> (real list \<Rightarrow> nat list) \<Rightarrow> real list \<Rightarrow> bool
    \<Rightarrow> example list \<Rightarrow> hyp list list \<Rightarrow> error + hyp list list" where
  "sorted_decode_results get_rerank_score np_argsort param fast_mode examples decode_results =
     map_err (\<lambda>(ex, hyps). rerank_example get_rerank_score np_argsort param fast_mode hyps)
             (zip examples decode_results)"

text \<open>The evaluator is the caller's: \<open>evaluate_dataset examples results fast_mode\<close>.
  The call returns the metric and the decode results as it leaves them.\<close>

type_synonym evaluator = "example list \<Rightarrow> hyp list list \<Rightarrow> bool \<Rightarrow> real"

definition compute_rerank_performance ::
  "(hyp \<Rightarrow> real list \<Rightarrow> error + real) \<Rightarrow> (real list \<Rightarrow> nat list) \<Rightarrow> 'a reranker_scheme
    \<Rightarrow> example list \<Rightarrow> hyp list list \<Rightarrow> evaluator \<Rightarrow> real list option \<Rightarrow> bool
    \<Rightarrow> error + (real \<times> hyp list list)" where
  "compute_rerank_performance get_rerank_score np_argsort rk examples decode_results
       evaluate_dataset param fast_mode =
     (case filter_hyps_and_initialize_features rk examples decode_results of
        Inl e \<Rightarrow> Inl e
      | Inr dr \<Rightarrow>
          (let p = (case param of None \<Rightarrow> parameter rk | Some q \<Rightarrow> q)
           in case sorted_decode_results get_rerank_score np_argsort p fast_mode examples dr of
                Inl e \<Rightarrow> Inl e
              | Inr results \<Rightarrow> Inr (evaluate_dataset examples results fast_mode, dr)))"

section \<open>GridSearchReranker\<close>

text \<open>\<^verbatim>\<open>itertools.combinations(values, r)\<close>, in its order of enumeration.\<close>

fun combinations :: "'a list \<Rightarrow> nat \<Rightarrow> 'a list list" where
  "combinations xs 0 = [[]]"
| "combinations [] (Suc r) = []"
| "combinations (x # xs) (Suc r) = map ((#) x) (combinations xs r) @ combinations xs (Suc r)"

text \<open>\<^verbatim>\<open>np.arange(0, 3.01, 0.01)\<close>: the 301 values 0, 0.01, ..., 3.00.\<close>

definition param_values :: "real list" where
  "param_values = map (\<lambda>k. real k / 100) [0..<301]"

text \<open>\<^verbatim>\<open>length = len([x for e in param_space])\<close>: \<open>param_space\<close> is a generator, so the
  comprehension consumes it, and the name \<^verbatim>\<open>x\<close> is bound nowhere, so its first
  evaluation raises. The result is the list built and what is left of the generator.\<close>

definition x_for_e_in :: "'a list \<Rightarrow> error + (unit list \<times> 'a list)" where
  "x_for_e_in param_space =
     (case param_space of [] \<Rightarrow> Inr ([], []) | e # rest \<Rightarrow> Inl NameError)"

fun train_loop ::
  "(real list \<Rightarrow> nat list) \<Rightarrow> 'a reranker_scheme \<Rightarrow> example list \<Rightarrow> evaluator
    \<Rightarrow> real list list \<Rightarrow> real list \<times> real \<times> hyp list list
    \<Rightarrow> error + (real list \<times> real \<times> hyp list list)" where
  "train_loop np_argsort rk examples ev [] st = Inr st"
| "train_loop np_argsort rk examples ev (param # ps) (best_param, best_score, dr) =
     (case compute_rerank_performance grid_get_rerank_score np_argsort rk examples dr ev
             (Some param) True of
        Inl e \<Rightarrow> Inl e
      | Inr (sc, dr') \<Rightarrow>
          if sc > best_score then train_loop np_argsort rk examples ev ps (param, sc, dr')
          else train_loop np_argsort rk examples ev ps (best_param, best_score, dr'))"

text \<open>\<open>train_on\<close> is \<^verbatim>\<open>GridSearchReranker.train\<close> with the grid of values as an
  argument; \<open>train\<close> is the method, on the grid of the source.\<close>

definition train_on ::
  "real list \<Rightarrow> (real list \<Rightarrow> nat list) \<Rightarrow> reranker \<Rightarrow> example list \<Rightarrow> hyp list list
    \<Rightarrow> evaluator \<Rightarrow> real \<Rightarrow> error + (reranker \<times> hyp list list)" where
  "train_on grid np_argsort rk examples decode_results ev initial_performance =
     (let best_score = initial_performance;
          best_param = replicate (feature_num rk) 0;
          param_space = combinations grid (feature_num rk)
      in case x_for_e_in param_space of
           Inl e \<Rightarrow> Inl e
         | Inr (counted, param_space') \<Rightarrow>
             (case train_loop np_argsort rk examples ev param_space'
                     (best_param, best_score, decode_results) of
                Inl e \<Rightarrow> Inl e
              | Inr (bp, bs, dr) \<Rightarrow> Inr (rk\<lparr>parameter := bp\<rparr>, dr)))"

definition train ::
  "(real list \<Rightarrow> nat list) \<Rightarrow> reranker \<Rightarrow> example list \<Rightarrow> hyp list list
    \<Rightarrow> evaluator \<Rightarrow> real \<Rightarrow> error + (reranker \<times> hyp list list)" where
  "train = train_on param_values"

subsection \<open>train\_multiprocess: the workers and the merge\<close>

text \<open>\<^verbatim>\<open>_rank_segment_worker\<close>: the best parameter of a segment, \<open>None\<close> when no
  parameter of the segment scores above 0. It runs in a process of its own, so what it
  does to the decode results stays there.\<close>

fun rank_segment_loop ::
  "(real list \<Rightarrow> nat list) \<Rightarrow> 'a reranker_scheme \<Rightarrow> example list \<Rightarrow> evaluator
    \<Rightarrow> real list list \<Rightarrow> real list option \<times> real \<times> hyp list list
    \<Rightarrow> error + (real list option \<times> real \<times> hyp list list)" where
  "rank_segment_loop np_argsort rk examples ev [] st = Inr st"
| "rank_segment_loop np_argsort rk examples ev (param # ps) (best_param, best_score, dr) =
     (case compute_rerank_performance grid_get_rerank_score np_argsort rk examples dr ev
             (Some param) True of
        Inl e \<Rightarrow> Inl e
      | Inr (sc, dr') \<Rightarrow>
          if sc > best_score
          then rank_segment_loop np_argsort rk examples ev ps (Some param, sc, dr')
          else rank_segment_loop np_argsort rk examples ev ps (best_param, best_score, dr'))"

definition rank_segment_worker ::
  "(real list \<Rightarrow> nat list) \<Rightarrow> 'a reranker_scheme \<Rightarrow> example list \<Rightarrow> hyp list list
    \<Rightarrow> evaluator \<Rightarrow> real list list \<Rightarrow> error + (real list option \<times> real)" where
  "rank_segment_worker np_argsort rk examples decode_results ev param_space =
     (if param_space = [] then Inl IndexError
      else case rank_segment_loop np_argsort rk examples ev param_space
                  (None, 0, decode_results) of
             Inl e \<Rightarrow> Inl e
           | Inr (best_param, best_score, dr) \<Rightarrow> Inr (best_param, best_score))"

text \<open>\<^verbatim>\<open>_norm\<close>: the sum of the squares; iterating over \<^verbatim>\<open>None\<close> raises.\<close>

definition sum_squares :: "real list \<Rightarrow> real" where
  "sum_squares v = sum_list (map (\<lambda>x. x ^ 2) v)"

definition norm_param :: "real list option \<Rightarrow> error + real" where
  "norm_param p = (case p of None \<Rightarrow> Inl TypeError | Some v \<Rightarrow> Inr (sum_squares v))"

text \<open>The coordinator's loop over the results, in the order they arrive:
  \<^verbatim>\<open>if score > best_score or score == best_score and _norm(param) < _norm(best_param)\<close>.\<close>

fun merge_results :: "(real list option \<times> real) list \<Rightarrow> real list option \<times> real
    \<Rightarrow> error + (real list option \<times> real)" where
  "merge_results [] best = Inr best"
| "merge_results ((param, sc) # results) (best_param, best_score) =
     (if sc > best_score then merge_results results (param, sc)
      else if sc = best_score then
        (case norm_param param of
           Inl e \<Rightarrow> Inl e
         | Inr n \<Rightarrow>
             (case norm_param best_param of
                Inl e \<Rightarrow> Inl e
              | Inr nb \<Rightarrow>
                  if n < nb then merge_results results (param, sc)
                  else merge_results results (best_param, best_score)))
      else merge_results results (best_param, best_score))"

text \<open>The merge as \<^verbatim>\<open>train_multiprocess\<close> starts it: from the zero vector and
  \<^verbatim>\<open>initial_performance\<close>.\<close>

definition merge_from_start :: "'a reranker_scheme \<Rightarrow> real \<Rightarrow> (real list option \<times> real) list
    \<Rightarrow> error + (real list option \<times> real)" where
  "merge_from_start rk initial_performance results =
     merge_results results (Some (replicate (feature_num rk) 0), initial_performance)"

section \<open>XGBoostReranker\<close>

text \<open>The subclass adds the trained ranker; \<open>ranker_predict\<close> stands for
  \<^verbatim>\<open>self.ranker.predict\<close>, one prediction per row.\<close>

record xgb_reranker = reranker +
  ranker_predict :: "real list list \<Rightarrow> real list"

text \<open>\<^verbatim>\<open>XGBoostReranker.__init__\<close>: the constructor of the base class without a
  parameter, then the ranker.\<close>

definition XGBoostReranker_init ::
  "feature list \<Rightarrow> (string \<Rightarrow> token list option) \<Rightarrow> (real list list \<Rightarrow> real list)
    \<Rightarrow> xgb_reranker" where
  "XGBoostReranker_init fs ts predict =
     reranker.extend (Reranker_init fs None ts) (xgb_reranker.fields predict)"

text \<open>\<^verbatim>\<open>label = 1 if hyp.is_correct else 0\<close> and
  \<^verbatim>\<open>feat_vec = [hyp.score] + [v for v in hyp.rerank_feature_values.values()]\<close>.\<close>

definition label :: "hyp \<Rightarrow> nat" where
  "label h = (if is_correct h then 1 else 0)"

definition feat_vec :: "hyp \<Rightarrow> error + real list" where
  "feat_vec h =
     (case rerank_feature_values h of
        None \<Rightarrow> Inl AttributeError
      | Some d \<Rightarrow> Inr (score h # od_values d))"

fun feature_rows :: "hyp list \<Rightarrow> real list list \<times> nat list
    \<Rightarrow> error + (real list list \<times> nat list)" where
  "feature_rows [] (x, y) = Inr (x, y)"
| "feature_rows (h # hs) (x, y) =
     (case feat_vec h of
        Inl e \<Rightarrow> Inl e
      | Inr v \<Rightarrow> feature_rows hs (x @ [v], y @ [label h]))"

fun feature_matrix_loop :: "hyp list list \<Rightarrow> real list list \<times> nat list \<times> nat list
    \<Rightarrow> error + (real list list \<times> nat list \<times> nat list)" where
  "feature_matrix_loop [] st = Inr st"
| "feature_matrix_loop (hyps # dr) (x, y, grp) =
     (if hyps \<noteq> [] then
        (case feature_rows hyps (x, y) of
           Inl e \<Rightarrow> Inl e
         | Inr (x', y') \<Rightarrow> feature_matrix_loop dr (x', y', grp @ [length hyps]))
      else feature_matrix_loop dr (x, y, grp))"

text \<open>\<^verbatim>\<open>np.stack\<close>: it raises on no row and on rows of different lengths.\<close>

definition np_stack :: "real list list \<Rightarrow> error + real list list" where
  "np_stack x =
     (case x of
        [] \<Rightarrow> Inl ValueError
      | r # rs \<Rightarrow> if list_all (\<lambda>r'. length r' = length r) rs then Inr x else Inl ValueError)"

definition get_feature_matrix :: "hyp list list
    \<Rightarrow> error + (real list list \<times> nat list \<times> nat list)" where
  "get_feature_matrix decode_results =
     (case feature_matrix_loop decode_results ([], [], []) of
        Inl e \<Rightarrow> Inl e
      | Inr (x, y, grp) \<Rightarrow>
          (case np_stack x of Inl e \<Rightarrow> Inl e | Inr x' \<Rightarrow> Inr (x', y, grp)))"

definition xgb_get_rerank_score :: "'a xgb_reranker_scheme \<Rightarrow> hyp \<Rightarrow> real list \<Rightarrow> error + real" where
  "xgb_get_rerank_score rk h param =
     (case get_feature_matrix [[h]] of
        Inl e \<Rightarrow> Inl e
      | Inr (x, y, grp) \<Rightarrow> get_item (ranker_predict rk x) 0)"

section \<open>Sample inputs\<close>

text \<open>A hypothesis as the parser hands it over: neither attribute of the reranker set.\<close>

definition parser_hyp :: "string \<Rightarrow> real \<Rightarrow> bool \<Rightarrow> hyp" where
  "parser_hyp c s ok =
     \<lparr>code = c, score = s, is_correct = ok, code_token_count = None,
      rerank_feature_values = None\<rparr>"

text \<open>A hypothesis with its values cached.\<close>

definition cached_hyp :: "string \<Rightarrow> real \<Rightarrow> bool \<Rightarrow> real ordered_dict \<Rightarrow> hyp" where
  "cached_hyp c s ok d =
     \<lparr>code = c, score = s, is_correct = ok, code_token_count = Some (length c),
      rerank_feature_values = Some d\<rparr>"

text \<open>A tokenizer for the samples: one token per character; it raises on unbalanced
  parentheses.\<close>

definition char_tokenizer :: "string \<Rightarrow> token list option" where
  "char_tokenizer s =
     (if count_list s (CHR ''('') = count_list s (CHR '')'') then Some (map (\<lambda>c. [c]) s)
      else None)"

definition utterance :: example where
  "utterance = \<lparr>src_sent = [''set'', ''x'']\<rparr>"

text \<open>An evaluator for the samples: the share of the examples whose first result is
  correct.\<close>

definition top1_accuracy :: evaluator where
  "top1_accuracy examples results fast_mode =
     real (length (filter (\<lambda>r. case r of [] \<Rightarrow> False | h # _ \<Rightarrow> is_correct h) results))
       / real (length examples)"

definition count_reranker :: reranker where
  "count_reranker = Reranker_init [HypCodeTokensCount] None char_tokenizer"

text \<open>A ranker for the samples: it predicts the sum of each row.\<close>

definition sum_ranker :: xgb_reranker where
  "sum_ranker = XGBoostReranker_init [HypCodeTokensCount] char_tokenizer (map sum_list)"

text \<open>Three hypotheses with cached values; the last two score the same.\<close>

definition tied_hyps :: "hyp list" where
  "tied_hyps = [cached_hyp ''x=1'' 1 False [(''code_token_count'', 3)],
                cached_hyp ''y=2'' 2 True [(''code_token_count'', 3)],
                cached_hyp ''z=3'' 2 False [(''code_token_count'', 3)]]"

text \<open>Decode results with 3, 0 and 2 hypotheses.\<close>

definition three_examples :: "hyp list list" where
  "three_examples =
     [tied_hyps, [],
      [cached_hyp ''a'' 4 True [(''code_token_count'', 1)],
       cached_hyp ''bc'' 5 False [(''code_token_count'', 2)]]]"

subsection \<open>The order of the cached values\<close>

text \<open>The keys of an \<^verbatim>\<open>OrderedDict\<close> after assigning to the keys \<open>ks\<close> in turn: a key
  that is present stays where it is, a new one goes last.\<close>

fun insert_keys :: "string list \<Rightarrow> string list \<Rightarrow> string list" where
  "insert_keys [] acc = acc"
| "insert_keys (k # ks) acc = insert_keys ks (if k \<in> set acc then acc else acc @ [k])"

text \<open>The order in which \<^verbatim>\<open>initialize_rerank_features\<close> fills
  \<^verbatim>\<open>rerank_feature_values\<close>: the batched features first, then the others.\<close>

definition cache_order :: "'a reranker_scheme \<Rightarrow> string list" where
  "cache_order rk =
     insert_keys (od_keys (filter (\<lambda>(n, f). \<not> is_batched f) (feat_map rk)))
       (insert_keys (od_keys (batched_features rk)) [])"

definition keys_are :: "string list \<Rightarrow> hyp \<Rightarrow> bool" where
  "keys_are ks h = (case rerank_feature_values h of None \<Rightarrow> False | Some d \<Rightarrow> od_keys d = ks)"

text \<open>The score as the specification words it: the parser score plus the dot product
  of the parameter with the cached values taken in the order in which the features were
  passed to the constructor.\<close>

definition registration_order_score ::
  "'a reranker_scheme \<Rightarrow> hyp \<Rightarrow> real list \<Rightarrow> error + real" where
  "registration_order_score rk h param =
     (case map_err (\<lambda>f. lookup_value h (feature_name f)) (features rk) of
        Inl e \<Rightarrow> Inl e
      | Inr feat_vals \<Rightarrow>
          (case np_dot param feat_vals of Inl e \<Rightarrow> Inl e | Inr dp \<Rightarrow> Inr (score h + dp)))"

text \<open>A batched feature for the samples: it scores every pseudo example 10.\<close>

definition constant_scorer :: feature where
  "constant_scorer =
     \<lparr>feature_name = ''paraphrase_score'', is_batched = True,
      get_feat_value = (\<lambda>ex h hyp_id all_hyps. Inr 0),
      feat_score = (\<lambda>batch. map (\<lambda>e. 10) batch)\<rparr>"

text \<open>A reranker whose second feature is batched.\<close>

definition mixed_reranker :: reranker where
  "mixed_reranker = Reranker_init [HypCodeTokensCount, constant_scorer] None char_tokenizer"

text \<open>The hypothesis \<^verbatim>\<open>x=1\<close> as \<open>mixed_reranker\<close> initialises it.\<close>

definition scored_hyp :: hyp where
  "scored_hyp =
     \<lparr>code = ''x=1'', score = 0, is_correct = True, code_token_count = Some 3,
      rerank_feature_values = Some [(''paraphrase_score'', 10), (''code_token_count'', 3)]\<rparr>"

section \<open>Lemmas on the helpers\<close>

lemma map_err_Inr_iff:
  "map_err f xs = Inr ys \<longleftrightarrow>
     length ys = length xs \<and> (\<forall>i<length xs. f (xs ! i) = Inr (ys ! i))"
proof (induction xs arbitrary: ys)
  case Nil
  then show ?case by auto
next
  case (Cons x xs)
  show ?case
  proof (cases ys)
    case Nil
    then show ?thesis by (auto split: sum.splits)
  next
    case (Cons y ys')
    then show ?thesis using Cons.IH[of ys']
      by (auto split: sum.splits nat.splits
          simp: nth_Cons less_Suc_eq_0_disj all_conj_distrib)
  qed
qed




lemma combinations_nonempty: "r \<le> length xs \<Longrightarrow> combinations xs r \<noteq> []"
  by (induction xs r rule: combinations.induct) auto

lemma length_param_values: "length param_values = 301"
  by (simp add: param_values_def)

lemma feature_num_count_reranker: "feature_num count_reranker = 1"
  by (simp add: count_reranker_def Reranker_init_def add_feature_def feature_num_def
      HypCodeTokensCount_def Let_def)

section \<open>Grid search: train\<close>

text \<open>Whenever the grid holds at least as many values as there are features, the
  parameter space is not empty and \<^verbatim>\<open>train\<close> raises before it evaluates anything.\<close>

lemma train_on_raises:
  "feature_num rk \<le> length grid \<Longrightarrow>
   train_on grid np_argsort rk examples decode_results ev initial_performance = Inl NameError"
  using combinations_nonempty[of "feature_num rk" grid]
  by (auto simp: train_on_def x_for_e_in_def Let_def split: list.splits)

text \<open>
  C1. The claim: \<^verbatim>\<open>GridSearchReranker.train\<close> evaluates every combination of the grid
  and sets the parameter to the first one that reaches the best metric; with one feature
  and the values 0, 1, 2 it finds the optimum. The code does not: with one feature, on
  the grid of the source as on the grid 0, 1, 2, on any examples, decode results and
  evaluator, the call raises \<^verbatim>\<open>NameError\<close> while it counts the parameter space, and no
  parameter is evaluated.
\<close>

theorem train_raises_NameError:
  "train np_argsort count_reranker examples decode_results ev initial_performance
     = Inl NameError
 \<and> train_on [0, 1, 2] np_argsort count_reranker examples decode_results ev
       initial_performance = Inl NameError"
  by (simp add: train_def train_on_raises feature_num_count_reranker length_param_values)

section \<open>compute\_rerank\_performance\<close>



text \<open>
  C6. The claim: an example without hypotheses contributes an empty list and
  \<^verbatim>\<open>compute_rerank_performance\<close> does not raise on it, in first position too. The code
  raises \<^verbatim>\<open>IndexError\<close> whenever the first example has no hypothesis: the check
  \<^verbatim>\<open>decode_results[0][0]\<close> of \<^verbatim>\<open>filter_hyps_and_initialize_features\<close> reads it.
\<close>

theorem empty_first_example_raises:
  "compute_rerank_performance get_rerank_score np_argsort rk examples ([] # decode_results)
     ev param fast_mode = Inl IndexError"
  by (simp add: compute_rerank_performance_def filter_hyps_and_initialize_features_def
      get_item_def)

text \<open>Past the first position the loop does what the claim says: the empty list of an
  example is its result.\<close>

lemma rerank_example_empty:
  "rerank_example get_rerank_score np_argsort param fast_mode [] = Inr []"
  by (simp add: rerank_example_def)

section \<open>XGBoostReranker\<close>

lemma sorted_decode_results_xgb:
  "sorted_decode_results (xgb_get_rerank_score rk) np_argsort p1 fast_mode examples dr
     = sorted_decode_results (xgb_get_rerank_score rk) np_argsort p2 fast_mode examples dr"
  unfolding sorted_decode_results_def rerank_example_def xgb_get_rerank_score_def ..

lemma compute_rerank_performance_xgb_None:
  "compute_rerank_performance (xgb_get_rerank_score rk) np_argsort rk' examples dr ev
     (Some p) fast_mode
   = compute_rerank_performance (xgb_get_rerank_score rk) np_argsort rk' examples dr ev
       None fast_mode"
proof (cases "filter_hyps_and_initialize_features rk' examples dr")
  case (Inl e)
  then show ?thesis by (simp add: compute_rerank_performance_def)
next
  case (Inr dr')
  have "sorted_decode_results (xgb_get_rerank_score rk) np_argsort p fast_mode examples dr'
      = sorted_decode_results (xgb_get_rerank_score rk) np_argsort (parameter rk') fast_mode
          examples dr'"
    by (rule sorted_decode_results_xgb)
  then show ?thesis by (simp add: compute_rerank_performance_def Inr)
qed

text \<open>
  C10. \<^verbatim>\<open>XGBoostReranker.get_rerank_score\<close> returns the same for any two values of
  \<^verbatim>\<open>param\<close>; for a hypothesis with cached values \<open>d\<close> it is the first prediction of the
  ranker on the one row made of the parser score and the cached values; and
  \<^verbatim>\<open>compute_rerank_performance\<close> with this scorer returns the same for any two values of
  its \<^verbatim>\<open>param\<close>, \<^verbatim>\<open>None\<close> included.
\<close>

theorem xgb_score_ignores_param:
  "xgb_get_rerank_score rk h param1 = xgb_get_rerank_score rk h param2
 \<and> (rerank_feature_values h = Some d \<longrightarrow>
      xgb_get_rerank_score rk h param1
        = get_item (ranker_predict rk [score h # od_values d]) 0)
 \<and> compute_rerank_performance (xgb_get_rerank_score rk) np_argsort rk examples dr ev p1
      fast_mode
    = compute_rerank_performance (xgb_get_rerank_score rk) np_argsort rk examples dr ev p2
        fast_mode"
proof -
  have "compute_rerank_performance (xgb_get_rerank_score rk) np_argsort rk examples dr ev p1
      fast_mode
    = compute_rerank_performance (xgb_get_rerank_score rk) np_argsort rk examples dr ev p2
        fast_mode"
    by (cases p1; cases p2) (simp_all add: compute_rerank_performance_xgb_None)
  then show ?thesis
    by (simp add: xgb_get_rerank_score_def get_feature_matrix_def np_stack_def feat_vec_def)
qed

theorem xgb_score_ignores_param_witness:
  "rerank_feature_values (cached_hyp ''x=1'' 2 True [(''code_token_count'', 3)])
     = Some [(''code_token_count'', 3)]
 \<and> xgb_get_rerank_score sum_ranker (cached_hyp ''x=1'' 2 True [(''code_token_count'', 3)]) [7]
     = xgb_get_rerank_score sum_ranker (cached_hyp ''x=1'' 2 True [(''code_token_count'', 3)]) []
 \<and> xgb_get_rerank_score sum_ranker (cached_hyp ''x=1'' 2 True [(''code_token_count'', 3)]) [7]
     = Inr 5"
  using xgb_score_ignores_param[of sum_ranker
      "cached_hyp ''x=1'' 2 True [(''code_token_count'', 3)]" "[7]" "[]"
      "[(''code_token_count'', 3)]" stable_argsort "[]" "[]" top1_accuracy None True None]
  by (auto simp: cached_hyp_def sum_ranker_def od_values_def get_item_def
      XGBoostReranker_init_def xgb_reranker.defs reranker.defs)

section \<open>compute\_rerank\_performance: the full ordering\<close>







section \<open>XGBoostReranker: the feature matrix\<close>

lemma feature_rows_ok:
  "\<forall>h\<in>set hs. rerank_feature_values h = Some (d h) \<Longrightarrow>
   feature_rows hs (x, y)
     = Inr (x @ map (\<lambda>h. score h # od_values (d h)) hs, y @ map label hs)"
  by (induction hs arbitrary: x y) (simp_all add: feat_vec_def)

lemma feature_matrix_loop_ok:
  "\<forall>h\<in>set (concat dr). rerank_feature_values h = Some (d h) \<Longrightarrow>
   feature_matrix_loop dr (x, y, grp)
     = Inr (x @ map (\<lambda>h. score h # od_values (d h)) (concat dr),
            y @ map label (concat dr),
            grp @ map length (filter (\<lambda>hyps. hyps \<noteq> []) dr))"
proof (induction dr arbitrary: x y grp)
  case Nil
  then show ?case by simp
next
  case (Cons hyps dr)
  have a: "\<forall>h\<in>set hyps. rerank_feature_values h = Some (d h)" using Cons.prems by simp
  have b: "\<forall>h\<in>set (concat dr). rerank_feature_values h = Some (d h)"
    using Cons.prems by simp
  show ?case
    by (cases "hyps = []") (simp_all add: feature_rows_ok[OF a] Cons.IH[OF b])
qed

lemma np_stack_ok:
  "x \<noteq> [] \<Longrightarrow> \<forall>r\<in>set x. length r = n \<Longrightarrow> np_stack x = Inr x"
  by (cases x) (auto simp: np_stack_def list_all_iff)

text \<open>
  C9. For decode results with at least one hypothesis, every hypothesis with its cached
  values \<open>d h\<close> (all of the same number \<open>n\<close>, as one reranker caches them),
  \<^verbatim>\<open>get_feature_matrix\<close> returns: one row per hypothesis, in order, the parser score
  followed by the cached values; one label per hypothesis, 1 if it is correct and 0 if
  not; and the hypothesis counts of the nonempty examples, the empty ones left out. The
  witness has the counts 3, 0, 2: five rows and the groups 3, 2.
\<close>

theorem get_feature_matrix_rows_labels_groups:
  assumes "concat decode_results \<noteq> []"
    and "\<forall>h\<in>set (concat decode_results).
           rerank_feature_values h = Some (d h) \<and> length (d h) = n"
  shows "get_feature_matrix decode_results
           = Inr (map (\<lambda>h. score h # od_values (d h)) (concat decode_results),
                  map (\<lambda>h. if is_correct h then 1 else 0) (concat decode_results),
                  map length (filter (\<lambda>hyps. hyps \<noteq> []) decode_results))"
proof -
  have a: "\<forall>h\<in>set (concat decode_results). rerank_feature_values h = Some (d h)"
    using assms(2) by simp
  let ?x = "map (\<lambda>h. score h # od_values (d h)) (concat decode_results)"
  have "?x \<noteq> []" using assms(1) by simp
  moreover have "\<forall>r\<in>set ?x. length r = Suc n"
    using assms(2) by (auto simp: od_values_def)
  ultimately have "np_stack ?x = Inr ?x" by (rule np_stack_ok)
  moreover have "map label (concat decode_results)
      = map (\<lambda>h. if is_correct h then 1 else 0) (concat decode_results)"
    by (simp add: label_def)
  ultimately show ?thesis
    by (simp add: get_feature_matrix_def feature_matrix_loop_ok[OF a])
qed

theorem get_feature_matrix_witness:
  "concat three_examples \<noteq> []
 \<and> list_all (\<lambda>h. rerank_feature_values h
                    = Some [(''code_token_count'', real (length (code h)))]
                \<and> length [(''code_token_count'', real (length (code h)))] = 1)
      (concat three_examples)
 \<and> map length three_examples = [3, 0, 2]
 \<and> get_feature_matrix three_examples
     = Inr ([[1, 3], [2, 3], [2, 3], [4, 1], [5, 2]], [0, 1, 0, 1, 0], [3, 2])"
proof -
  have h1: "concat three_examples \<noteq> []" by (simp add: three_examples_def tied_hyps_def)
  have h2: "\<forall>h\<in>set (concat three_examples).
      rerank_feature_values h = Some [(''code_token_count'', real (length (code h)))]
      \<and> length [(''code_token_count'', real (length (code h)))] = 1"
    by (simp add: three_examples_def tied_hyps_def cached_hyp_def)
  show ?thesis
    using h1 h2 get_feature_matrix_rows_labels_groups[of three_examples
       "\<lambda>h. [(''code_token_count'', real (length (code h)))]" 1, OF h1 h2]
    by (simp add: list_all_iff three_examples_def tied_hyps_def cached_hyp_def od_values_def)
qed

section \<open>train\_multiprocess: the merge\<close>

text \<open>The loop invariant of the merge, for results whose parameters are vectors: the
  pair kept at the end is the start or one of the results, no score is above its score,
  and no pair with its score has a smaller sum of squares.\<close>

lemma merge_results_inv:
  assumes "\<forall>r\<in>set results. fst r \<noteq> None"
  shows "\<exists>bp bs. merge_results results (Some p0, s0) = Inr (Some bp, bs)
     \<and> (Some bp, bs) \<in> insert (Some p0, s0) (set results)
     \<and> (\<forall>r\<in>insert (Some p0, s0) (set results).
           snd r \<le> bs \<and> (snd r = bs \<longrightarrow> (\<forall>p. fst r = Some p \<longrightarrow> sum_squares bp \<le> sum_squares p)))"
  using assms
proof (induction results arbitrary: p0 s0)
  case Nil
  then show ?case by simp
next
  case (Cons r results)
  obtain p s where r: "r = (Some p, s)" using Cons.prems by (cases r) auto
  have rest: "\<forall>r\<in>set results. fst r \<noteq> None" using Cons.prems by simp
  consider (gt) "s > s0" | (eq_less) "s = s0" "sum_squares p < sum_squares p0"
    | (eq_ge) "s = s0" "\<not> sum_squares p < sum_squares p0" | (lt) "s < s0"
    by fastforce
  then show ?case
  proof cases
    case gt
    from Cons.IH[OF rest, of p s] obtain bp bs where
      m: "merge_results results (Some p, s) = Inr (Some bp, bs)"
      and mem: "(Some bp, bs) \<in> insert (Some p, s) (set results)"
      and best: "\<forall>r\<in>insert (Some p, s) (set results).
           snd r \<le> bs \<and> (snd r = bs \<longrightarrow> (\<forall>p. fst r = Some p \<longrightarrow> sum_squares bp \<le> sum_squares p))"
      by blast
    have "s \<le> bs" using best by auto
    then have "s0 < bs" using gt by simp
    with gt m mem best show ?thesis by (auto simp: r)
  next
    case eq_less
    from Cons.IH[OF rest, of p s] obtain bp bs where
      m: "merge_results results (Some p, s) = Inr (Some bp, bs)"
      and mem: "(Some bp, bs) \<in> insert (Some p, s) (set results)"
      and best: "\<forall>r\<in>insert (Some p, s) (set results).
           snd r \<le> bs \<and> (snd r = bs \<longrightarrow> (\<forall>p. fst r = Some p \<longrightarrow> sum_squares bp \<le> sum_squares p))"
      by blast
    have "s \<le> bs \<and> (s = bs \<longrightarrow> sum_squares bp \<le> sum_squares p)" using best by auto
    with eq_less m mem best show ?thesis by (auto simp: r norm_param_def)
  next
    case eq_ge
    from Cons.IH[OF rest, of p0 s0] obtain bp bs where
      m: "merge_results results (Some p0, s0) = Inr (Some bp, bs)"
      and mem: "(Some bp, bs) \<in> insert (Some p0, s0) (set results)"
      and best: "\<forall>r\<in>insert (Some p0, s0) (set results).
           snd r \<le> bs \<and> (snd r = bs \<longrightarrow> (\<forall>p. fst r = Some p \<longrightarrow> sum_squares bp \<le> sum_squares p))"
      by blast
    have "s0 \<le> bs \<and> (s0 = bs \<longrightarrow> sum_squares bp \<le> sum_squares p0)" using best by auto
    with eq_ge m mem best show ?thesis by (auto simp: r norm_param_def)
  next
    case lt
    from Cons.IH[OF rest, of p0 s0] obtain bp bs where
      m: "merge_results results (Some p0, s0) = Inr (Some bp, bs)"
      and mem: "(Some bp, bs) \<in> insert (Some p0, s0) (set results)"
      and best: "\<forall>r\<in>insert (Some p0, s0) (set results).
           snd r \<le> bs \<and> (snd r = bs \<longrightarrow> (\<forall>p. fst r = Some p \<longrightarrow> sum_squares bp \<le> sum_squares p))"
      by blast
    have "s0 \<le> bs" using best by auto
    with lt m mem best show ?thesis by (auto simp: r)
  qed
qed


lemma sum_squares_nonneg: "0 \<le> sum_squares v"
  by (induction v) (simp_all add: sum_squares_def)

lemma merge_results_stays:
  assumes "\<forall>r\<in>set results. fst r \<noteq> None \<and> snd r \<le> s0" and "sum_squares p0 = 0"
  shows "merge_results results (Some p0, s0) = Inr (Some p0, s0)"
  using assms
proof (induction results)
  case Nil
  then show ?case by simp
next
  case (Cons r results)
  obtain p s where r: "r = (Some p, s)" using Cons.prems(1) by (cases r) auto
  have "s \<le> s0" using Cons.prems(1) r by simp
  moreover have "\<not> sum_squares p < 0" using sum_squares_nonneg[of p] by simp
  ultimately show ?case using Cons by (simp add: r norm_param_def)
qed

lemma sum_squares_zeros: "sum_squares (replicate k 0) = 0"
  by (induction k) (simp_all add: sum_squares_def)

text \<open>
  C8, as the code has it. The coordinator starts from the zero vector and
  \<^verbatim>\<open>initial_performance\<close> \<open>ip\<close>. On results whose parameters are vectors the merge
  returns, and the score it keeps is the largest of \<open>ip\<close> and the workers' scores. When
  a worker's score is above \<open>ip\<close>, the pair kept is a worker's result with the maximal
  score, and among the results with that score none has a smaller sum of squares; when
  none is above \<open>ip\<close>, the zero vector stays. With \<open>ip\<close> below 0.8 (the default is 0)
  the results ([0.5], 0.8) and ([0.2], 0.8) merge to [0.2] in both orders of arrival.
\<close>

theorem merge_keeps_best:
  assumes "\<forall>r\<in>set results. fst r \<noteq> None"
  shows "\<exists>bp bs. merge_from_start rk ip results = Inr (Some bp, bs)
     \<and> ip \<le> bs \<and> (\<forall>r\<in>set results. snd r \<le> bs)
     \<and> (if \<exists>r\<in>set results. ip < snd r
         then (Some bp, bs) \<in> set results
              \<and> (\<forall>p. (Some p, bs) \<in> set results \<longrightarrow> sum_squares bp \<le> sum_squares p)
         else bp = replicate (feature_num rk) 0 \<and> bs = ip)
     \<and> (ip < 4/5 \<longrightarrow>
          merge_from_start rk ip [(Some [1/2], 4/5), (Some [1/5], 4/5)] = Inr (Some [1/5], 4/5)
        \<and> merge_from_start rk ip [(Some [1/5], 4/5), (Some [1/2], 4/5)] = Inr (Some [1/5], 4/5))"
proof -
  let ?z = "replicate (feature_num rk) (0::real)"
  have ex: "ip < 4/5 \<longrightarrow>
          merge_from_start rk ip [(Some [1/2], 4/5), (Some [1/5], 4/5)] = Inr (Some [1/5], 4/5)
        \<and> merge_from_start rk ip [(Some [1/5], 4/5), (Some [1/2], 4/5)] = Inr (Some [1/5], 4/5)"
    by (simp add: merge_from_start_def norm_param_def sum_squares_def power2_eq_square)
  have main: "\<exists>bp bs. merge_from_start rk ip results = Inr (Some bp, bs)
     \<and> ip \<le> bs \<and> (\<forall>r\<in>set results. snd r \<le> bs)
     \<and> (if \<exists>r\<in>set results. ip < snd r
         then (Some bp, bs) \<in> set results
              \<and> (\<forall>p. (Some p, bs) \<in> set results \<longrightarrow> sum_squares bp \<le> sum_squares p)
         else bp = replicate (feature_num rk) 0 \<and> bs = ip)"
  proof (cases "\<exists>r\<in>set results. ip < snd r")
    case True
    from merge_results_inv[OF assms, of ?z ip] obtain bp bs where
      m: "merge_results results (Some ?z, ip) = Inr (Some bp, bs)"
      and mem: "(Some bp, bs) \<in> insert (Some ?z, ip) (set results)"
      and best: "\<forall>r\<in>insert (Some ?z, ip) (set results).
           snd r \<le> bs \<and> (snd r = bs \<longrightarrow> (\<forall>p. fst r = Some p \<longrightarrow> sum_squares bp \<le> sum_squares p))"
      by blast
    from True obtain r where "r \<in> set results" "ip < snd r" by blast
    then have "ip < bs" using best by fastforce
    then have a: "(Some bp, bs) \<in> set results" using mem by auto
    have b: "\<forall>p. (Some p, bs) \<in> set results \<longrightarrow> sum_squares bp \<le> sum_squares p"
      using best by fastforce
    have c: "ip \<le> bs" "\<forall>r\<in>set results. snd r \<le> bs" using best by auto
    have "merge_from_start rk ip results = Inr (Some bp, bs)"
      using m by (simp add: merge_from_start_def)
    with a b c True show ?thesis by auto
  next
    case False
    then have le: "\<forall>r\<in>set results. fst r \<noteq> None \<and> snd r \<le> ip" using assms by fastforce
    then have "merge_results results (Some ?z, ip) = Inr (Some ?z, ip)"
      by (rule merge_results_stays) (rule sum_squares_zeros)
    then have "merge_from_start rk ip results = Inr (Some ?z, ip)"
      by (simp add: merge_from_start_def)
    with le False show ?thesis by auto
  qed
  from main ex show ?thesis by blast
qed

theorem merge_keeps_best_witness:
  "list_all (\<lambda>r. fst r \<noteq> None) [(Some [1/2], 4/5), (Some [1/5::real], 4/5::real)]
 \<and> merge_from_start count_reranker 0 [(Some [1/2], 4/5), (Some [1/5], 4/5)] = Inr (Some [1/5], 4/5)
 \<and> merge_from_start count_reranker 0 [(Some [1/5], 4/5), (Some [1/2], 4/5)] = Inr (Some [1/5], 4/5)"
proof -
  have h: "\<forall>r\<in>set [(Some [1/2], 4/5), (Some [1/5::real], 4/5::real)]. fst r \<noteq> None"
    by simp
  from merge_keeps_best[OF h, of count_reranker 0] show ?thesis by auto
qed

text \<open>The claim has the two results merge to [0.2] whatever the call: with
  \<^verbatim>\<open>initial_performance=0.8\<close> neither result is better than the start, and the zero
  vector is kept.\<close>

theorem merge_at_initial_performance_keeps_zeros:
  "merge_from_start count_reranker (4/5) [(Some [1/2], 4/5), (Some [1/5], 4/5)] = Inr (Some [0], 4/5)"
  by (simp add: merge_from_start_def norm_param_def sum_squares_def feature_num_count_reranker)

text \<open>A worker whose segment never scores above 0 returns \<^verbatim>\<open>(None, 0.0)\<close>; when it
  arrives while the best score is still 0, \<^verbatim>\<open>_norm(None)\<close> raises.\<close>

lemma merge_raises_on_None:
  "merge_from_start rk 0 ((None, 0) # results) = Inl TypeError"
  by (simp add: merge_from_start_def norm_param_def)

section \<open>Filtering\<close>

lemma valid_hyps_loop_filter: "valid_hyps_loop P hs acc = acc @ filter P hs"
  by (induction hs arbitrary: acc) simp_all

lemma fold_update_prefix:
  "n \<le> length dr \<Longrightarrow>
   fold (\<lambda>i dr. dr[i := f (dr ! i)]) [0..<n] dr = map f (take n dr) @ drop n dr"
proof (induction n)
  case 0
  then show ?case by simp
next
  case (Suc n)
  then have n: "n < length dr" by simp
  have "fold (\<lambda>i dr. dr[i := f (dr ! i)]) [0..<Suc n] dr
      = (map f (take n dr) @ drop n dr)[n := f ((map f (take n dr) @ drop n dr) ! n)]"
    using Suc by simp
  also have "\<dots> = map f (take n dr) @ (drop n dr)[0 := f (dr ! n)]"
    using n by (simp add: list_update_append nth_append)
  also have "\<dots> = map f (take n dr) @ f (dr ! n) # drop (Suc n) dr"
    using n by (simp add: Cons_nth_drop_Suc[symmetric])
  also have "\<dots> = map f (take (Suc n) dr) @ drop (Suc n) dr"
    using n by (simp add: take_Suc_conv_app_nth)
  finally show ?case .
qed

lemma filter_hyps_map: "filter_hyps dr P = map (filter P) dr"
  using fold_update_prefix[of "length dr" dr "\<lambda>hs. valid_hyps_loop P hs []"]
  by (simp add: filter_hyps_def valid_hyps_loop_filter)

lemma is_valid_hyp_iff: "is_valid_hyp rk h \<longleftrightarrow> code h \<noteq> [] \<and> tokenize_code rk (code h) \<noteq> None"
  by (auto simp: is_valid_hyp_def split: option.splits)

text \<open>
  C5. \<^verbatim>\<open>_filter_hyps\<close> with \<^verbatim>\<open>is_valid_hyp\<close> keeps, in each example's list and in
  order, exactly the hypotheses whose code is not empty and is tokenized without a raise
  (a raise of the tokenizer is the value \<open>None\<close>, it ends nothing). When the first
  hypothesis of the first example has no \<^verbatim>\<open>rerank_feature_values\<close>,
  \<^verbatim>\<open>filter_hyps_and_initialize_features\<close> initialises the lists filtered so. With a
  tokenizer that takes \<^verbatim>\<open>x=1\<close> and raises on \<^verbatim>\<open>not valid python((\<close>, of the three
  hypotheses of the claim only the first is left.
\<close>

theorem filter_keeps_tokenizable_nonempty:
  "filter_hyps decode_results (is_valid_hyp rk)
     = map (filter (\<lambda>h. code h \<noteq> [] \<and> tokenize_code rk (code h) \<noteq> None)) decode_results
 \<and> (rerank_feature_values h0 = None \<longrightarrow>
      filter_hyps_and_initialize_features rk examples ((h0 # hs) # dr)
        = initialize_rerank_features rk examples
            (map (filter (\<lambda>h. code h \<noteq> [] \<and> tokenize_code rk (code h) \<noteq> None))
                 ((h0 # hs) # dr)))
 \<and> (tokenize_code rk ''x=1'' \<noteq> None \<and> tokenize_code rk ''not valid python(('' = None \<longrightarrow>
      filter_hyps [[parser_hyp ''x=1'' s1 c1, parser_hyp [] s2 c2,
                    parser_hyp ''not valid python(('' s3 c3]] (is_valid_hyp rk)
        = [[parser_hyp ''x=1'' s1 c1]])"
proof -
  have v: "is_valid_hyp rk = (\<lambda>h. code h \<noteq> [] \<and> tokenize_code rk (code h) \<noteq> None)"
    by (simp add: fun_eq_iff is_valid_hyp_iff)
  show ?thesis
    by (simp add: filter_hyps_map v filter_hyps_and_initialize_features_def get_item_def
        parser_hyp_def)
qed

lemma tokenize_code_count_reranker: "tokenize_code count_reranker = char_tokenizer"
  by (simp add: count_reranker_def Reranker_init_def add_feature_def Let_def)

theorem filter_keeps_tokenizable_nonempty_witness:
  "tokenize_code count_reranker ''x=1'' \<noteq> None
 \<and> tokenize_code count_reranker ''not valid python(('' = None
 \<and> rerank_feature_values (parser_hyp ''x=1'' 0 True) = None
 \<and> filter_hyps [[parser_hyp ''x=1'' 0 True, parser_hyp [] 0 False,
                 parser_hyp ''not valid python(('' 0 False]] (is_valid_hyp count_reranker)
     = [[parser_hyp ''x=1'' 0 True]]"
  using filter_keeps_tokenizable_nonempty[of "[]" count_reranker "parser_hyp ''x=1'' 0 True"
      "[]" "[]" "[]" 0 True 0 False 0 False]
  by (simp add: tokenize_code_count_reranker char_tokenizer_def parser_hyp_def)

section \<open>Feature initialisation: the order of the cached values\<close>

text \<open>Each loop of \<^verbatim>\<open>initialize_rerank_features\<close> leaves every hypothesis it visits
  with the same list of keys: none after the first loop, the batched names after the
  copy, \<open>cache_order\<close> at the end.\<close>

lemma keys_are_update:
  "rerank_feature_values h = Some d \<Longrightarrow> keys_are ks h \<Longrightarrow>
   keys_are (if k \<in> set ks then ks else ks @ [k])
     (h\<lparr>rerank_feature_values := Some (AList.update k v d)\<rparr>)"
  by (auto simp: keys_are_def od_keys_def update_keys)

lemma copy_batched_keys:
  "copy_batched bfs hes p h = Inr h' \<Longrightarrow> keys_are ks h \<Longrightarrow>
   keys_are (insert_keys (od_keys bfs) ks) h'"
proof (induction bfs arbitrary: h ks)
  case Nil
  then show ?case by (simp add: od_keys_def)
next
  case (Cons nf bfs)
  obtain n f where nf: "nf = (n, f)" by (cases nf)
  from Cons.prems(1) obtain he v d where
    d: "rerank_feature_values h = Some d"
    and rec: "copy_batched bfs hes p (h\<lparr>rerank_feature_values := Some (AList.update n v d)\<rparr>) = Inr h'"
    by (auto simp: nf split: sum.splits option.splits)
  from Cons.IH[OF rec keys_are_update[OF d Cons.prems(2)]]
  show ?case by (simp add: nf od_keys_def)
qed

lemma copy_hyps_keys:
  "copy_hyps bfs hes p hs = Inr (hs', p') \<Longrightarrow> \<forall>h\<in>set hs. keys_are ks h \<Longrightarrow>
   \<forall>h'\<in>set hs'. keys_are (insert_keys (od_keys bfs) ks) h'"
proof (induction hs arbitrary: p hs')
  case Nil
  then show ?case by simp
next
  case (Cons h hs)
  from Cons.prems(1) obtain h1 hs1 where
    a: "copy_batched bfs hes p h = Inr h1"
    and b: "copy_hyps bfs hes (p + 1) hs = Inr (hs1, p')"
    and c: "hs' = h1 # hs1"
    by (auto split: sum.splits prod.splits)
  have "keys_are (insert_keys (od_keys bfs) ks) h1"
    using copy_batched_keys[OF a] Cons.prems(2) by simp
  moreover have "\<forall>h'\<in>set hs1. keys_are (insert_keys (od_keys bfs) ks) h'"
    using Cons.IH[OF b] Cons.prems(2) by simp
  ultimately show ?case by (simp add: c)
qed

lemma copy_all_keys:
  "copy_all bfs hes p exs dr = Inr dr2 \<Longrightarrow>
   \<forall>(ex, hyps)\<in>set (zip exs dr). \<forall>h\<in>set hyps. keys_are ks h \<Longrightarrow>
   \<forall>(ex, hyps)\<in>set (zip exs dr2). \<forall>h\<in>set hyps. keys_are (insert_keys (od_keys bfs) ks) h"
proof (induction bfs hes p exs dr arbitrary: dr2 rule: copy_all.induct)
  case (1 bfs hes p ex exs hyps dr)
  from "1.prems"(1) obtain hyps1 p1 dr1 where
    a: "copy_hyps bfs hes p hyps = Inr (hyps1, p1)"
    and b: "copy_all bfs hes p1 exs dr = Inr dr1"
    and c: "dr2 = hyps1 # dr1"
    by (auto split: sum.splits prod.splits)
  have "\<forall>h\<in>set hyps1. keys_are (insert_keys (od_keys bfs) ks) h"
    using copy_hyps_keys[OF a] "1.prems"(2) by simp
  moreover have "\<forall>(ex, hyps)\<in>set (zip exs dr1). \<forall>h\<in>set hyps. keys_are (insert_keys (od_keys bfs) ks) h"
    using "1.IH"[OF a refl b] "1.prems"(2) by simp
  ultimately show ?case by (simp add: c)
qed simp_all


lemma init_hyps_keys:
  "init_hyps rk ex hs hes = Inr (hs', hes') \<Longrightarrow> \<forall>h\<in>set hs'. keys_are [] h"
proof (induction hs arbitrary: hes hs')
  case Nil
  then show ?case by simp
next
  case (Cons h hs)
  let ?hes = "hes @ [\<lparr>he_src_sent = src_sent ex, tgt_code = code h, attrs = []\<rparr>]"
  from Cons.prems obtain toks where t: "tokenize_code rk (code h) = Some toks"
    by (cases "tokenize_code rk (code h)") (simp_all add: Let_def)
  from Cons.prems t obtain hs1 where b: "init_hyps rk ex hs ?hes = Inr (hs1, hes')"
    and c: "hs' = h\<lparr>code_token_count := Some (length toks), rerank_feature_values := Some []\<rparr> # hs1"
    by (cases "init_hyps rk ex hs ?hes") (auto simp: Let_def)
  show ?case using Cons.IH[OF b] by (simp add: c keys_are_def od_keys_def)
qed

lemma init_all_keys:
  "init_all rk exs dr hes = Inr (dr1, hes') \<Longrightarrow>
   \<forall>(ex, hyps)\<in>set (zip exs dr1). \<forall>h\<in>set hyps. keys_are [] h"
proof (induction rk exs dr hes arbitrary: dr1 rule: init_all.induct)
  case (1 rk ex exs hyps dr hes)
  from "1.prems" obtain hyps1 hes1 dr2 where
    a: "init_hyps rk ex hyps hes = Inr (hyps1, hes1)"
    and b: "init_all rk exs dr hes1 = Inr (dr2, hes')"
    and c: "dr1 = hyps1 # dr2"
    by (auto split: sum.splits prod.splits)
  show ?case using init_hyps_keys[OF a] "1.IH"[OF a refl b] by (simp add: c)
qed simp_all

lemma set_values_keys:
  "set_values fm ex done h rest = Inr h' \<Longrightarrow> keys_are ks h \<Longrightarrow>
   keys_are (insert_keys (od_keys (filter (\<lambda>(n, f). \<not> is_batched f) fm)) ks) h'"
proof (induction fm arbitrary: h ks)
  case Nil
  then show ?case by (simp add: od_keys_def)
next
  case (Cons nf fm)
  obtain n f where nf: "nf = (n, f)" by (cases nf)
  show ?case
  proof (cases "is_batched f")
    case True
    then show ?thesis using Cons by (simp add: nf od_keys_def)
  next
    case False
    from Cons.prems(2) obtain d where d: "rerank_feature_values h = Some d"
      by (cases "rerank_feature_values h") (simp_all add: keys_are_def)
    from Cons.prems(1) False obtain v where
      v: "get_feat_value f ex h (length done) (done @ h # rest) = Inr v"
      by (cases "get_feat_value f ex h (length done) (done @ h # rest)") (simp_all add: nf)
    have rec: "set_values fm ex done (h\<lparr>rerank_feature_values := Some (AList.update n v d)\<rparr>) rest
                = Inr h'"
      using Cons.prems(1) False d v by (simp add: nf)
    from Cons.IH[OF rec keys_are_update[OF d Cons.prems(2)]] False
    show ?thesis by (simp add: nf od_keys_def)
  qed
qed

lemma set_hyps_keys:
  assumes "set_hyps fm ex done hs = Inr res"
    and "\<forall>h\<in>set done. keys_are (insert_keys (od_keys (filter (\<lambda>(n, f). \<not> is_batched f) fm)) ks) h"
    and "\<forall>h\<in>set hs. keys_are ks h"
  shows "\<forall>h\<in>set res. keys_are (insert_keys (od_keys (filter (\<lambda>(n, f). \<not> is_batched f) fm)) ks) h"
  using assms
proof (induction hs arbitrary: "done")
  case Nil
  then show ?case by simp
next
  case (Cons h hs)
  let ?K = "insert_keys (od_keys (filter (\<lambda>(n, f). \<not> is_batched f) fm)) ks"
  obtain h1 where a: "set_values fm ex done h hs = Inr h1"
    using Cons.prems(1) by (cases "set_values fm ex done h hs") simp_all
  have b: "set_hyps fm ex (done @ [h1]) hs = Inr res"
    using Cons.prems(1) a by simp
  have "keys_are ks h" using Cons.prems(3) by simp
  then have k1: "keys_are ?K h1" by (rule set_values_keys[OF a])
  have p2: "\<forall>h\<in>set (done @ [h1]). keys_are ?K h"
    using Cons.prems(2) k1 by simp
  have p3: "\<forall>h\<in>set hs. keys_are ks h" using Cons.prems(3) by simp
  show ?case by (rule Cons.IH[OF b p2 p3])
qed

lemma set_all_keys:
  assumes "set_all fm exs dr = Inr dr2"
    and "\<forall>(ex, hyps)\<in>set (zip exs dr). \<forall>h\<in>set hyps. keys_are ks h"
  shows "\<forall>(ex, hyps)\<in>set (zip exs dr2). \<forall>h\<in>set hyps.
      keys_are (insert_keys (od_keys (filter (\<lambda>(n, f). \<not> is_batched f) fm)) ks) h"
  using assms
proof (induction fm exs dr arbitrary: dr2 rule: set_all.induct)
  case (1 fm ex exs hyps dr)
  let ?K = "insert_keys (od_keys (filter (\<lambda>(n, f). \<not> is_batched f) fm)) ks"
  obtain hyps1 where a: "set_hyps fm ex [] hyps = Inr hyps1"
    using "1.prems"(1) by (cases "set_hyps fm ex [] hyps") simp_all
  obtain dr1 where b: "set_all fm exs dr = Inr dr1"
    using "1.prems"(1) a by (cases "set_all fm exs dr") simp_all
  have c: "dr2 = hyps1 # dr1" using "1.prems"(1) a b by simp
  have h0: "\<forall>h\<in>set hyps. keys_are ks h" using "1.prems"(2) by simp
  have e0: "\<forall>h\<in>set []. keys_are ?K h" by simp
  have k1: "\<forall>h\<in>set hyps1. keys_are ?K h"
    by (rule set_hyps_keys[OF a e0 h0])
  have r0: "\<forall>(ex, hyps)\<in>set (zip exs dr). \<forall>h\<in>set hyps. keys_are ks h"
    using "1.prems"(2) by simp
  have k2: "\<forall>(ex, hyps)\<in>set (zip exs dr1). \<forall>h\<in>set hyps. keys_are ?K h"
    by (rule "1.IH"[OF a b r0])
  show ?case using k1 k2 by (simp add: c)
qed simp_all

lemma initialize_rerank_features_keys:
  assumes "initialize_rerank_features rk examples dr = Inr dr'"
  shows "\<forall>(ex, hyps)\<in>set (zip examples dr'). \<forall>h\<in>set hyps. keys_are (cache_order rk) h"
proof -
  from assms obtain dr1 hes hes' dr2 where
    a: "init_all rk examples dr [] = Inr (dr1, hes)"
    and b: "copy_all (batched_features rk) hes' 0 examples dr1 = Inr dr2"
    and c: "set_all (feat_map rk) examples dr2 = Inr dr'"
    by (auto simp: initialize_rerank_features_def split: sum.splits prod.splits)
  from set_all_keys[OF c copy_all_keys[OF b init_all_keys[OF a]]]
  show ?thesis by (simp add: cache_order_def)
qed

section \<open>GridSearchReranker.get\_rerank\_score\<close>

text \<open>With feature names that differ, the constructor's maps list the features in the
  order they were passed, and the cache order is the batched names followed by the other
  names.\<close>

lemma insert_keys_append:
  "distinct ks \<Longrightarrow> set ks \<inter> set acc = {} \<Longrightarrow> insert_keys ks acc = acc @ ks"
  by (induction ks arbitrary: acc) auto

lemma update_new_key: "k \<notin> fst ` set al \<Longrightarrow> AList.update k v al = al @ [(k, v)]"
  by (induction al) auto

lemma fold_add_feature:
  assumes "distinct (map feature_name fs)"
    and "\<forall>g\<in>set fs. feature_name g \<notin> fst ` set (feat_map rk0)"
    and "\<forall>g\<in>set fs. feature_name g \<notin> fst ` set (batched_features rk0)"
  shows "feat_map (fold add_feature fs rk0)
           = feat_map rk0 @ map (\<lambda>f. (feature_name f, f)) fs
       \<and> batched_features (fold add_feature fs rk0)
           = batched_features rk0 @ map (\<lambda>f. (feature_name f, f)) (filter is_batched fs)
       \<and> features (fold add_feature fs rk0) = features rk0 @ fs
       \<and> tokenize_code (fold add_feature fs rk0) = tokenize_code rk0"
  using assms
proof (induction fs arbitrary: rk0)
  case Nil
  then show ?case by simp
next
  case (Cons f fs)
  let ?rk1 = "add_feature f rk0"
  have n1: "feature_name f \<notin> fst ` set (feat_map rk0)"
    and n2: "feature_name f \<notin> fst ` set (batched_features rk0)"
    using Cons.prems(2,3) by simp_all
  have fm: "feat_map ?rk1 = feat_map rk0 @ [(feature_name f, f)]"
    using n1 by (simp add: add_feature_def Let_def update_new_key)
  have bf: "batched_features ?rk1
      = batched_features rk0 @ (if is_batched f then [(feature_name f, f)] else [])"
    using n2 by (simp add: add_feature_def Let_def update_new_key)
  have ft: "features ?rk1 = features rk0 @ [f]" "tokenize_code ?rk1 = tokenize_code rk0"
    by (simp_all add: add_feature_def Let_def)
  have d: "distinct (map feature_name fs)" using Cons.prems(1) by simp
  have "feature_name f \<notin> feature_name ` set fs" using Cons.prems(1) by simp
  then have nf: "\<forall>g\<in>set fs. feature_name g \<noteq> feature_name f"
    by (metis image_eqI)
  have a: "\<forall>g\<in>set fs. feature_name g \<notin> fst ` set (feat_map ?rk1)"
  proof
    fix g assume g: "g \<in> set fs"
    have "feature_name g \<notin> fst ` set (feat_map rk0)" using Cons.prems(2) g by simp
    moreover have "feature_name g \<noteq> feature_name f" using nf g by simp
    ultimately show "feature_name g \<notin> fst ` set (feat_map ?rk1)"
      by (simp add: fm image_Un)
  qed
  have b: "\<forall>g\<in>set fs. feature_name g \<notin> fst ` set (batched_features ?rk1)"
  proof
    fix g assume g: "g \<in> set fs"
    have "feature_name g \<notin> fst ` set (batched_features rk0)" using Cons.prems(3) g by simp
    moreover have "feature_name g \<noteq> feature_name f" using nf g by simp
    ultimately show "feature_name g \<notin> fst ` set (batched_features ?rk1)"
      by (cases "is_batched f") (simp_all add: bf image_Un)
  qed
  from Cons.IH[OF d a b] show ?case by (simp add: fm bf ft)
qed

lemma Reranker_init_maps:
  assumes "distinct (map feature_name fs)"
  shows "feat_map (Reranker_init fs p ts) = map (\<lambda>f. (feature_name f, f)) fs"
    and "batched_features (Reranker_init fs p ts)
           = map (\<lambda>f. (feature_name f, f)) (filter is_batched fs)"
    and "features (Reranker_init fs p ts) = fs"
    and "tokenize_code (Reranker_init fs p ts) = ts"
  using fold_add_feature[OF assms, of "\<lparr>features = [], tokenize_code = ts, feat_map = [],
                  batched_features = [], parameter = []\<rparr>"]
  by (cases p; simp add: Reranker_init_def Let_def)+

lemma cache_order_Reranker_init:
  assumes "distinct (map feature_name fs)"
  shows "cache_order (Reranker_init fs p ts)
    = map feature_name (filter is_batched fs) @ map feature_name (filter (\<lambda>f. \<not> is_batched f) fs)"
proof -
  let ?b = "map feature_name (filter is_batched fs)"
  let ?n = "map feature_name (filter (\<lambda>f. \<not> is_batched f) fs)"
  have kb: "od_keys (batched_features (Reranker_init fs p ts)) = ?b"
    by (simp add: Reranker_init_maps[OF assms] od_keys_def comp_def)
  have kn: "od_keys (filter (\<lambda>(n, f). \<not> is_batched f) (feat_map (Reranker_init fs p ts))) = ?n"
    by (simp add: Reranker_init_maps[OF assms] od_keys_def filter_map comp_def)
  have db: "distinct ?b" and dn: "distinct ?n"
    using assms by (simp_all add: distinct_map_filter)
  have disj: "set ?n \<inter> set ?b = {}"
  proof (rule ccontr)
    assume "set ?n \<inter> set ?b \<noteq> {}"
    then obtain f g where f: "f \<in> set fs" "\<not> is_batched f" and g: "g \<in> set fs" "is_batched g"
      and e: "feature_name f = feature_name g" by auto
    from assms have "inj_on feature_name (set fs)" by (simp add: distinct_map)
    with f(1) g(1) e have "f = g" by (auto dest: inj_onD)
    with f(2) g(2) show False by simp
  qed
  have "insert_keys ?b [] = ?b" using insert_keys_append[OF db, of "[]"] by simp
  moreover have "insert_keys ?n ?b = ?b @ ?n" by (rule insert_keys_append[OF dn disj])
  ultimately show ?thesis by (simp add: cache_order_def kb kn)
qed

text \<open>
  C4, as the code has it. After \<^verbatim>\<open>initialize_rerank_features\<close> has returned, every
  hypothesis of every example it visited caches its values under the keys
  \<open>cache_order rk\<close>, and for a parameter of that length
  \<^verbatim>\<open>GridSearchReranker.get_rerank_score\<close> returns the parser score plus the dot product
  of the parameter with the cached values in that order. For a reranker built from
  features with different names that order is: the batched features in the order they
  were passed to the constructor, then the features that are not batched in the order
  they were passed. It is the registration order when no batched feature comes after one
  that is not batched.
\<close>

theorem grid_score_in_cache_order:
  assumes "initialize_rerank_features rk examples dr = Inr dr'"
    and "(ex, hyps) \<in> set (zip examples dr')" and "h \<in> set hyps"
    and "length param = length (cache_order rk)"
  shows "(\<exists>d. rerank_feature_values h = Some d \<and> od_keys d = cache_order rk
           \<and> grid_get_rerank_score h param
               = Inr (score h + sum_list (map (\<lambda>(w, v). w * v) (zip param (od_values d)))))
       \<and> (distinct (map feature_name fs) \<longrightarrow>
            cache_order (Reranker_init fs p0 ts)
              = map feature_name (filter is_batched fs)
                @ map feature_name (filter (\<lambda>f. \<not> is_batched f) fs))"
proof -
  have "keys_are (cache_order rk) h"
    using initialize_rerank_features_keys[OF assms(1)] assms(2,3) by auto
  then obtain d where d: "rerank_feature_values h = Some d" "od_keys d = cache_order rk"
    by (cases "rerank_feature_values h") (simp_all add: keys_are_def)
  have "length param = length (od_values d)"
    using assms(4) d(2)[symmetric] by (simp add: od_keys_def od_values_def)
  then have "grid_get_rerank_score h param
               = Inr (score h + sum_list (map (\<lambda>(w, v). w * v) (zip param (od_values d))))"
    using d(1) by (simp add: grid_get_rerank_score_def np_dot_def)
  with d cache_order_Reranker_init show ?thesis by blast
qed

lemma init_mixed:
  "initialize_rerank_features mixed_reranker [utterance] [[parser_hyp ''x=1'' 0 True]]
     = Inr [[scored_hyp]]"
  by (simp add: initialize_rerank_features_def mixed_reranker_def Reranker_init_def
      add_feature_def Let_def HypCodeTokensCount_def constant_scorer_def char_tokenizer_def
      parser_hyp_def scored_hyp_def utterance_def batch_iter.simps get_item_def)


lemma cache_order_mixed: "cache_order mixed_reranker = [''paraphrase_score'', ''code_token_count'']"
  by (simp add: cache_order_def mixed_reranker_def Reranker_init_def add_feature_def Let_def
      HypCodeTokensCount_def constant_scorer_def od_keys_def)

theorem grid_score_in_cache_order_witness:
  "initialize_rerank_features mixed_reranker [utterance] [[parser_hyp ''x=1'' 0 True]]
     = Inr [[scored_hyp]]
 \<and> (utterance, [scored_hyp]) \<in> set (zip [utterance] [[scored_hyp]])
 \<and> scored_hyp \<in> set [scored_hyp]
 \<and> length [1, 0::real] = length (cache_order mixed_reranker)
 \<and> distinct (map feature_name [HypCodeTokensCount, constant_scorer])
 \<and> cache_order mixed_reranker = [''paraphrase_score'', ''code_token_count'']
 \<and> grid_get_rerank_score scored_hyp [1, 0] = Inr 10"
proof -
  have h2: "(utterance, [scored_hyp]) \<in> set (zip [utterance] [[scored_hyp]])" by simp
  have h3: "scored_hyp \<in> set [scored_hyp]" by simp
  have h4: "length [1, 0::real] = length (cache_order mixed_reranker)"
    by (simp add: cache_order_mixed)
  have h5: "distinct (map feature_name [HypCodeTokensCount, constant_scorer])"
    by (simp add: HypCodeTokensCount_def constant_scorer_def)
  from grid_score_in_cache_order[OF init_mixed h2 h3 h4,
      of "[HypCodeTokensCount, constant_scorer]" None char_tokenizer]
  have "grid_get_rerank_score scored_hyp [1, 0] = Inr 10"
    by (auto simp: scored_hyp_def od_values_def)
  with init_mixed h2 h3 h4 h5 cache_order_mixed show ?thesis by blast
qed

text \<open>A reranker whose second feature is batched caches the second feature's value
  first: with the parameter [1, 0] the code weighs the batched value (10) and returns
  10, where the dot product in registration order weighs the token count (3) and gives
  3.\<close>

theorem grid_score_not_in_registration_order:
  "features mixed_reranker = [HypCodeTokensCount, constant_scorer]
 \<and> initialize_rerank_features mixed_reranker [utterance] [[parser_hyp ''x=1'' 0 True]]
     = Inr [[scored_hyp]]
 \<and> grid_get_rerank_score scored_hyp [1, 0] = Inr 10
 \<and> registration_order_score mixed_reranker scored_hyp [1, 0] = Inr 3"
proof -
  have f: "features mixed_reranker = [HypCodeTokensCount, constant_scorer]"
    by (simp add: mixed_reranker_def Reranker_init_def add_feature_def Let_def)
  have g: "grid_get_rerank_score scored_hyp [1, 0] = Inr 10"
    by (simp add: grid_get_rerank_score_def scored_hyp_def od_values_def np_dot_def)
  have r: "registration_order_score mixed_reranker scored_hyp [1, 0] = Inr 3"
    by (simp add: registration_order_score_def f lookup_value_def scored_hyp_def np_dot_def
        HypCodeTokensCount_def constant_scorer_def)
  from f init_mixed g r show ?thesis by blast
qed

section \<open>filter\_hyps\_and\_initialize\_features: the second call\<close>

lemma initialize_no_examples: "initialize_rerank_features rk [] dr = Inr dr"
  by (cases dr) (simp_all add: initialize_rerank_features_def batch_iter.simps)

text \<open>
  C7. The claim: a second call of \<^verbatim>\<open>filter_hyps_and_initialize_features\<close> on the same
  examples and decode results is skipped and changes nothing. When the first call has
  dropped every hypothesis of the first example, the second call is not skipped: its
  check \<^verbatim>\<open>decode_results[0][0]\<close> raises \<^verbatim>\<open>IndexError\<close>. Here the only hypothesis of
  the only example has empty code.
\<close>

theorem second_call_raises_after_first_example_emptied:
  "filter_hyps_and_initialize_features count_reranker [utterance] [[parser_hyp [] 0 False]]
     = Inr [[]]
 \<and> filter_hyps_and_initialize_features count_reranker [utterance] [[]] = Inl IndexError"
  by (simp add: filter_hyps_and_initialize_features_def get_item_def parser_hyp_def
      filter_hyps_map is_valid_hyp_def tokenize_code_count_reranker char_tokenizer_def
      initialize_rerank_features_def batch_iter.simps)

text \<open>When the first example keeps a hypothesis, the second call returns the decode
  results as the first call left them.\<close>

lemma second_call_changes_nothing:
  assumes "filter_hyps_and_initialize_features rk examples dr = Inr dr'"
    and "dr' \<noteq> []" and "dr' ! 0 \<noteq> []"
  shows "filter_hyps_and_initialize_features rk examples dr' = Inr dr'"
proof -
  obtain hyps0 rest where dr: "dr = hyps0 # rest"
    using assms(1) by (cases dr) (simp_all add: filter_hyps_and_initialize_features_def get_item_def)
  obtain h0 hs where hyps0: "hyps0 = h0 # hs"
    using assms(1) dr
    by (cases hyps0) (simp_all add: filter_hyps_and_initialize_features_def get_item_def)
  obtain hyps0' rest' where dr': "dr' = hyps0' # rest'" using assms(2) by (cases dr') auto
  obtain h0' hs' where hyps0': "hyps0' = h0' # hs'" using assms(3) dr' by (cases hyps0') auto
  show ?thesis
  proof (cases "rerank_feature_values h0 = None")
    case False
    then have "dr' = dr"
      using assms(1) by (auto simp: dr hyps0 filter_hyps_and_initialize_features_def get_item_def)
    then show ?thesis using assms(1) by simp
  next
    case True
    let ?dr1 = "filter_hyps dr (is_valid_hyp rk)"
    have init: "initialize_rerank_features rk examples ?dr1 = Inr dr'"
      using assms(1) True
      by (simp add: dr hyps0 filter_hyps_and_initialize_features_def get_item_def)
    show ?thesis
    proof (cases examples)
      case Nil
      then have e: "dr' = ?dr1" using init by (simp add: initialize_no_examples)
      have idem: "filter_hyps dr' (is_valid_hyp rk) = dr'"
        by (simp add: e filter_hyps_map)
      show ?thesis
        by (simp add: dr' hyps0' filter_hyps_and_initialize_features_def get_item_def
            Nil initialize_no_examples idem[unfolded dr' hyps0'])
    next
      case (Cons ex exs)
      have "keys_are (cache_order rk) h0'"
        using initialize_rerank_features_keys[OF init] by (simp add: Cons dr' hyps0')
      then have "rerank_feature_values h0' \<noteq> None"
        by (cases "rerank_feature_values h0'") (simp_all add: keys_are_def)
      then show ?thesis
        by (auto simp: dr' hyps0' filter_hyps_and_initialize_features_def get_item_def)
    qed
  qed
qed

end
